theory Spec2Isabelle
  imports Main "HOL-Library.Log_Nat"
begin

section \<open>Layers and modules\<close>

text \<open>
  The blocks of \<^verbatim>\<open>zeus/modules/blocks/blocks.py\<close> are classes derived from
  \<^verbatim>\<open>Module\<close>. A constructor does nothing but call primitives of \<^verbatim>\<open>ops\<close> (and
  other block constructors) and assign each result to an attribute of \<^verbatim>\<open>self\<close>.
  The primitives belong to the tensor framework behind \<^verbatim>\<open>ops\<close>; a call to one is
  recorded here as a value holding the arguments of the call, and a module is the class
  name with its attributes in the order of assignment. Whether the framework accepts
  the arguments of a call is its own matter and is not modelled: a constructor that
  returns \<open>Inl\<close> has raised in its own code, before any primitive was called.

  A keyword the source does not pass is \<open>None\<close>: its default is the framework's.
  The two positional arguments of \<^verbatim>\<open>ops.Conv2d\<close> in \<^verbatim>\<open>PruneBasicConv\<close> are taken
  as \<^verbatim>\<open>in_channels\<close> and \<^verbatim>\<open>out_channels\<close>, and the positional argument of
  \<^verbatim>\<open>ops.BatchNorm2d\<close> as \<^verbatim>\<open>num_features\<close>, the order of the keywords everywhere
  else in the file.
\<close>

record conv2d_args =
  conv_in_channels :: int
  conv_out_channels :: int
  conv_kernel_size :: int
  conv_stride :: "int option"
  conv_padding :: "int option"
  conv_groups :: "int option"
  conv_bias :: "bool option"

record maxpool2d_args =
  pool_kernel_size :: int
  pool_stride :: int
  pool_padding :: int

datatype layer =
    Conv2d conv2d_args
  | BatchNorm2d int
  | Relu "bool option"
  | MaxPool2d maxpool2d_args
  | Add module module
and module = Module string "(string \<times> layer) list"

fun cls_name :: "module \<Rightarrow> string" where
  "cls_name (Module c ls) = c"

fun attrs :: "module \<Rightarrow> (string \<times> layer) list" where
  "attrs (Module c ls) = ls"

datatype py_error = OverflowError

section \<open>The float arithmetic of BottleConv\<close>

text \<open>
  \<^verbatim>\<open>int(outchannel * (base_width / 64.))\<close> is computed in IEEE doubles. On Python
  integers:
  \<^item> an integer operand of \<^verbatim>\<open>/\<close> or \<^verbatim>\<open>*\<close> with a float is converted to the nearest
    double, ties to even, and the conversion raises \<^verbatim>\<open>OverflowError\<close> when that
    double would be \<open>2 ^ 1024\<close> or more in magnitude;
  \<^item> dividing an integer-valued double by \<open>64\<close> is exact;
  \<^item> the product of two doubles is rounded to the nearest double, ties to even, and
    is infinite when the rounded magnitude would be \<open>2 ^ 1024\<close> or more;
  \<^item> \<^verbatim>\<open>int\<close> truncates towards zero and raises \<^verbatim>\<open>OverflowError\<close> on infinity.

  Every double of this computation is an integer divided by \<open>64\<close>, so the model keeps the
  numerators: rounding to 53 significant bits commutes with the division by \<open>64\<close>.
\<close>

definition round53 :: "int \<Rightarrow> int" where
  "round53 n =
     (let a = \<bar>n\<bar>; e = bitlen a - 53 in
      if e \<le> 0 then n
      else
        let q = a div 2 ^ nat e; r = a mod 2 ^ nat e; h = 2 ^ nat (e - 1);
            q' = (if h < r \<or> (r = h \<and> odd q) then q + 1 else q)
        in sgn n * (q' * 2 ^ nat e))"

definition float_of_int :: "int \<Rightarrow> py_error + int" where
  "float_of_int n =
     (let r = round53 n in if 2 ^ 1024 \<le> \<bar>r\<bar> then Inl OverflowError else Inr r)"

definition bottle_width :: "int \<Rightarrow> int \<Rightarrow> int \<Rightarrow> py_error + int" where
  "bottle_width outchannel base_width groups =
     (case float_of_int base_width of
        Inl err \<Rightarrow> Inl err
      | Inr fb \<Rightarrow>
          (case float_of_int outchannel of
             Inl err \<Rightarrow> Inl err
           | Inr fo \<Rightarrow>
               let p = round53 (fo * fb) in
               if 2 ^ 1030 \<le> \<bar>p\<bar> then Inl OverflowError
               else Inr (sgn p * (\<bar>p\<bar> div 64) * groups)))"

section \<open>The block constructors\<close>

definition ShortCut :: "int \<Rightarrow> int \<Rightarrow> int \<Rightarrow> int \<Rightarrow> module" where
  "ShortCut inchannel outchannel expansion stride =
     Module ''ShortCut''
       (if stride \<noteq> 1 \<or> inchannel \<noteq> outchannel * expansion then
          [(''conv1'', Conv2d \<lparr>conv_in_channels = inchannel,
                               conv_out_channels = outchannel * expansion,
                               conv_kernel_size = 1, conv_stride = Some stride,
                               conv_padding = None, conv_groups = None,
                               conv_bias = Some False\<rparr>),
           (''batch'', BatchNorm2d (outchannel * expansion))]
        else [])"

definition BottleConv ::
  "int \<Rightarrow> int \<Rightarrow> int \<Rightarrow> int \<Rightarrow> int \<Rightarrow> int \<Rightarrow> py_error + module" where
  "BottleConv inchannel outchannel0 expansion groups base_width stride =
     (case bottle_width outchannel0 base_width groups of
        Inl err \<Rightarrow> Inl err
      | Inr outchannel \<Rightarrow>
          Inr (Module ''BottleConv''
            [(''conv1'', Conv2d \<lparr>conv_in_channels = inchannel,
                                 conv_out_channels = outchannel,
                                 conv_kernel_size = 1, conv_stride = Some 1,
                                 conv_padding = None, conv_groups = None,
                                 conv_bias = Some False\<rparr>),
             (''batch1'', BatchNorm2d outchannel),
             (''conv2'', Conv2d \<lparr>conv_in_channels = outchannel,
                                 conv_out_channels = outchannel,
                                 conv_kernel_size = 3, conv_stride = Some stride,
                                 conv_padding = Some 1, conv_groups = Some groups,
                                 conv_bias = Some False\<rparr>),
             (''batch2'', BatchNorm2d outchannel),
             (''conv3'', Conv2d \<lparr>conv_in_channels = outchannel,
                                 conv_out_channels = outchannel * expansion,
                                 conv_kernel_size = 1, conv_stride = Some 1,
                                 conv_padding = None, conv_groups = None,
                                 conv_bias = Some False\<rparr>),
             (''batch3'', BatchNorm2d (outchannel * expansion)),
             (''relu'', Relu None)]))"

definition BasicConv :: "int \<Rightarrow> int \<Rightarrow> int \<Rightarrow> int \<Rightarrow> int \<Rightarrow> module" where
  "BasicConv inchannel outchannel groups base_width stride =
     Module ''BasicConv''
       [(''conv'', Conv2d \<lparr>conv_in_channels = inchannel,
                           conv_out_channels = outchannel,
                           conv_kernel_size = 3, conv_stride = Some stride,
                           conv_padding = Some 1, conv_groups = Some groups,
                           conv_bias = Some False\<rparr>),
        (''batch'', BatchNorm2d outchannel),
        (''relu'', Relu (Some True)),
        (''conv2'', Conv2d \<lparr>conv_in_channels = outchannel,
                            conv_out_channels = outchannel,
                            conv_kernel_size = 3, conv_stride = None,
                            conv_padding = Some 1, conv_groups = Some groups,
                            conv_bias = Some False\<rparr>),
        (''batch2'', BatchNorm2d outchannel)]"

definition SmallInputInitialBlock :: "int \<Rightarrow> module" where
  "SmallInputInitialBlock init_plane =
     Module ''SmallInputInitialBlock''
       [(''conv'', Conv2d \<lparr>conv_in_channels = 3,
                           conv_out_channels = init_plane,
                           conv_kernel_size = 3, conv_stride = Some 1,
                           conv_padding = Some 1, conv_groups = None,
                           conv_bias = Some False\<rparr>),
        (''bn'', BatchNorm2d init_plane),
        (''relu'', Relu None)]"

definition InitialBlock :: "int \<Rightarrow> module" where
  "InitialBlock init_plane =
     Module ''InitialBlock''
       [(''conv'', Conv2d \<lparr>conv_in_channels = 3,
                           conv_out_channels = init_plane,
                           conv_kernel_size = 7, conv_stride = Some 2,
                           conv_padding = Some 3, conv_groups = None,
                           conv_bias = Some False\<rparr>),
        (''batch'', BatchNorm2d init_plane),
        (''maxpool2d'', MaxPool2d \<lparr>pool_kernel_size = 3, pool_stride = 2,
                                     pool_padding = 1\<rparr>)]"

definition BasicBlock_expansion :: int where
  "BasicBlock_expansion = 1"

definition BasicBlock :: "int \<Rightarrow> int \<Rightarrow> int \<Rightarrow> int \<Rightarrow> int \<Rightarrow> module" where
  "BasicBlock inchannel outchannel groups base_width stride =
     (let base_conv = BasicConv inchannel outchannel groups base_width stride;
          shortcut = ShortCut inchannel outchannel BasicBlock_expansion stride
      in Module ''BasicBlock''
           [(''block'', Add base_conv shortcut), (''relu'', Relu None)])"

definition BottleneckBlock_expansion :: int where
  "BottleneckBlock_expansion = 4"

definition BottleneckBlock ::
  "int \<Rightarrow> int \<Rightarrow> int \<Rightarrow> int \<Rightarrow> int \<Rightarrow> py_error + module" where
  "BottleneckBlock inchannel outchannel groups base_width stride =
     (case BottleConv inchannel outchannel BottleneckBlock_expansion groups base_width stride of
        Inl err \<Rightarrow> Inl err
      | Inr bottle_conv \<Rightarrow>
          let shortcut = ShortCut inchannel outchannel BottleneckBlock_expansion stride
          in Inr (Module ''BottleneckBlock''
                    [(''block'', Add bottle_conv shortcut), (''relu'', Relu None)]))"

definition PruneBasicConv :: "int \<Rightarrow> int \<Rightarrow> int \<Rightarrow> int \<Rightarrow> module" where
  "PruneBasicConv in_planes planes inner_plane stride =
     Module ''PruneBasicConv''
       [(''conv1'', Conv2d \<lparr>conv_in_channels = in_planes,
                            conv_out_channels = inner_plane,
                            conv_kernel_size = 3, conv_stride = Some stride,
                            conv_padding = Some 1, conv_groups = None,
                            conv_bias = Some False\<rparr>),
        (''bn1'', BatchNorm2d inner_plane),
        (''relu'', Relu None),
        (''conv2'', Conv2d \<lparr>conv_in_channels = inner_plane,
                            conv_out_channels = planes,
                            conv_kernel_size = 3, conv_stride = Some 1,
                            conv_padding = Some 1, conv_groups = None,
                            conv_bias = Some False\<rparr>),
        (''bn2'', BatchNorm2d planes),
        (''relu2'', Relu None)]"

definition PruneBasicBlock_expansion :: int where
  "PruneBasicBlock_expansion = 1"

definition PruneBasicBlock :: "int \<Rightarrow> int \<Rightarrow> int \<Rightarrow> int \<Rightarrow> module" where
  "PruneBasicBlock inchannel outchannel innerchannel stride =
     (let conv_block = PruneBasicConv inchannel outchannel innerchannel stride;
          shortcut = ShortCut inchannel outchannel PruneBasicBlock_expansion stride
      in Module ''PruneBasicBlock''
           [(''block'', Add conv_block shortcut), (''relu3'', Relu None)])"

section \<open>Reading a module\<close>

text \<open>
  The number of channels a module yields from an input of \<open>c\<close> channels: a
  convolution yields its \<^verbatim>\<open>out_channels\<close>, every other primitive keeps the count,
  and \<^verbatim>\<open>Add\<close> sums its branches elementwise, so it yields what its first branch
  yields. A module without layers passes its input on.
\<close>

fun layer_channels :: "int \<Rightarrow> layer \<Rightarrow> int"
and seq_channels :: "int \<Rightarrow> (string \<times> layer) list \<Rightarrow> int"
and out_channels :: "int \<Rightarrow> module \<Rightarrow> int" where
  "layer_channels c (Conv2d a) = conv_out_channels a"
| "layer_channels c (BatchNorm2d k) = c"
| "layer_channels c (Relu i) = c"
| "layer_channels c (MaxPool2d a) = c"
| "layer_channels c (Add m1 m2) = out_channels c m1"
| "seq_channels c [] = c"
| "seq_channels c (x # xs) = seq_channels (layer_channels c (snd x)) xs"
| "out_channels c (Module n ls) = seq_channels c ls"

text \<open>The two branches held by the \<^verbatim>\<open>block\<close> attribute of a residual block.\<close>

definition block_branches :: "module \<Rightarrow> (module \<times> module) option" where
  "block_branches m =
     (case map_of (attrs m) ''block'' of
        Some (Add m1 m2) \<Rightarrow> Some (m1, m2)
      | _ \<Rightarrow> None)"

definition branch_channels :: "int \<Rightarrow> module \<Rightarrow> (int \<times> int) option" where
  "branch_channels c m =
     map_option (\<lambda>(m1, m2). (out_channels c m1, out_channels c m2)) (block_branches m)"

text \<open>The convolutions and the pooling layers among the attributes of a module, in order.\<close>

fun conv_of :: "layer \<Rightarrow> conv2d_args option" where
  "conv_of (Conv2d a) = Some a"
| "conv_of l = None"

fun pool_of :: "layer \<Rightarrow> maxpool2d_args option" where
  "pool_of (MaxPool2d a) = Some a"
| "pool_of l = None"

definition convs :: "module \<Rightarrow> conv2d_args list" where
  "convs m = List.map_filter (\<lambda>x. conv_of (snd x)) (attrs m)"

definition pools :: "module \<Rightarrow> maxpool2d_args list" where
  "pools m = List.map_filter (\<lambda>x. pool_of (snd x)) (attrs m)"

text \<open>
  Channel consistency of the batch normalisations: walking the attributes of a module in
  order, every \<^verbatim>\<open>BatchNorm2d\<close> has the \<^verbatim>\<open>out_channels\<close> of the last convolution
  before it as its \<^verbatim>\<open>num_features\<close> (and there is such a convolution); the branches
  of an \<^verbatim>\<open>Add\<close> are modules of their own and are checked likewise.
\<close>

fun bn_seq :: "int option \<Rightarrow> (string \<times> layer) list \<Rightarrow> bool"
and bn_consistent :: "module \<Rightarrow> bool" where
  "bn_seq prev [] = True"
| "bn_seq prev ((n, Conv2d a) # xs) = bn_seq (Some (conv_out_channels a)) xs"
| "bn_seq prev ((n, BatchNorm2d k) # xs) = (prev = Some k \<and> bn_seq prev xs)"
| "bn_seq prev ((n, Relu i) # xs) = bn_seq prev xs"
| "bn_seq prev ((n, MaxPool2d a) # xs) = bn_seq prev xs"
| "bn_seq prev ((n, Add m1 m2) # xs) =
     (bn_consistent m1 \<and> bn_consistent m2 \<and> bn_seq None xs)"
| "bn_consistent (Module n ls) = bn_seq None ls"

section \<open>Registration of the block classes\<close>

text \<open>
  Modelled from the spec: \<^verbatim>\<open>ClassFactory\<close> and \<^verbatim>\<open>ClassType\<close> of
  \<^verbatim>\<open>zeus.common\<close> are not among the sources. The spec calls them the
  class-registration/factory mechanism into which the blocks are registered; the factory
  is a table from a class type and a class name to the class,
  \<^verbatim>\<open>ClassFactory.register(t)\<close> decorates a class by storing it under \<open>t\<close> and its own
  name, and a name is resolved by looking the table up. Of \<^verbatim>\<open>ClassType\<close> only
  \<^verbatim>\<open>SEARCH_SPACE\<close> is used; \<open>OtherClassType\<close> stands for its other members.
\<close>

datatype ClassType = SEARCH_SPACE | OtherClassType nat

datatype block_class =
    ShortCut_class
  | BottleConv_class
  | BasicConv_class
  | SmallInputInitialBlock_class
  | InitialBlock_class
  | BasicBlock_class
  | BottleneckBlock_class
  | PruneBasicBlock_class
  | PruneBasicConv_class

fun class_name :: "block_class \<Rightarrow> string" where
  "class_name ShortCut_class = ''ShortCut''"
| "class_name BottleConv_class = ''BottleConv''"
| "class_name BasicConv_class = ''BasicConv''"
| "class_name SmallInputInitialBlock_class = ''SmallInputInitialBlock''"
| "class_name InitialBlock_class = ''InitialBlock''"
| "class_name BasicBlock_class = ''BasicBlock''"
| "class_name BottleneckBlock_class = ''BottleneckBlock''"
| "class_name PruneBasicBlock_class = ''PruneBasicBlock''"
| "class_name PruneBasicConv_class = ''PruneBasicConv''"

type_synonym class_registry = "ClassType \<times> string \<rightharpoonup> block_class"

definition register :: "ClassType \<Rightarrow> block_class \<Rightarrow> class_registry \<Rightarrow> class_registry" where
  "register t cls reg = reg((t, class_name cls) \<mapsto> cls)"

definition get_cls :: "class_registry \<Rightarrow> ClassType \<Rightarrow> string \<Rightarrow> block_class option" where
  "get_cls reg t name = reg (t, name)"

text \<open>
  Importing \<^verbatim>\<open>blocks.py\<close> runs its nine decorated class statements from top to
  bottom.
\<close>

definition import_blocks :: "class_registry \<Rightarrow> class_registry" where
  "import_blocks reg =
     fold (register SEARCH_SPACE)
       [ShortCut_class, BottleConv_class, BasicConv_class, SmallInputInitialBlock_class,
        InitialBlock_class, BasicBlock_class, BottleneckBlock_class, PruneBasicBlock_class,
        PruneBasicConv_class]
       reg"

section \<open>The backend shim of the quantization operators\<close>

text \<open>
  \<^verbatim>\<open>zeus/modules/operators/quant/__init__.py\<close> tests \<^verbatim>\<open>is_tf_backend()\<close> and
  star-imports one module. \<^verbatim>\<open>is_tf_backend\<close> is not among the sources: its result
  is the argument of \<open>quant_init\<close>, which returns the modules imported. The second module
  is spelled \<^verbatim>\<open>pytroch_quant\<close> in the source.
\<close>

datatype quant_module = tensorflow_quant | pytroch_quant

definition quant_init :: "bool \<Rightarrow> quant_module list" where
  "quant_init is_tf_backend =
     (if is_tf_backend then [tensorflow_quant] else [pytroch_quant])"

section \<open>Running the fragment\<close>

text \<open>
  What the fragment's own code does with a piece of it: a constructor call builds a module
  or raises in the constructor's own code, and importing the quantization package imports
  its modules. The own code of the constructors other than \<^verbatim>\<open>BottleConv\<close> and
  \<^verbatim>\<open>BottleneckBlock\<close>, and of the shim, is integer multiplication, comparison, a
  truth test and calls: it holds no \<^verbatim>\<open>raise\<close> and no operation that raises on
  integers, so these return.
\<close>

datatype fragment_call =
    Call_ShortCut int int int int
  | Call_BottleConv int int int int int int
  | Call_BasicConv int int int int int
  | Call_SmallInputInitialBlock int
  | Call_InitialBlock int
  | Call_BasicBlock int int int int int
  | Call_BottleneckBlock int int int int int
  | Call_PruneBasicBlock int int int int
  | Call_PruneBasicConv int int int int
  | Import_quant bool

datatype fragment_result = Built module | Imported "quant_module list"

fun run_call :: "fragment_call \<Rightarrow> py_error + fragment_result" where
  "run_call (Call_ShortCut inchannel outchannel expansion stride) =
     Inr (Built (ShortCut inchannel outchannel expansion stride))"
| "run_call (Call_BottleConv inchannel outchannel expansion groups base_width stride) =
     map_sum id Built (BottleConv inchannel outchannel expansion groups base_width stride)"
| "run_call (Call_BasicConv inchannel outchannel groups base_width stride) =
     Inr (Built (BasicConv inchannel outchannel groups base_width stride))"
| "run_call (Call_SmallInputInitialBlock init_plane) =
     Inr (Built (SmallInputInitialBlock init_plane))"
| "run_call (Call_InitialBlock init_plane) = Inr (Built (InitialBlock init_plane))"
| "run_call (Call_BasicBlock inchannel outchannel groups base_width stride) =
     Inr (Built (BasicBlock inchannel outchannel groups base_width stride))"
| "run_call (Call_BottleneckBlock inchannel outchannel groups base_width stride) =
     map_sum id Built (BottleneckBlock inchannel outchannel groups base_width stride)"
| "run_call (Call_PruneBasicBlock inchannel outchannel innerchannel stride) =
     Inr (Built (PruneBasicBlock inchannel outchannel innerchannel stride))"
| "run_call (Call_PruneBasicConv in_planes planes inner_plane stride) =
     Inr (Built (PruneBasicConv in_planes planes inner_plane stride))"
| "run_call (Import_quant is_tf_backend) = Inr (Imported (quant_init is_tf_backend))"

text \<open>
  The integers a call passes into float arithmetic: \<^verbatim>\<open>outchannel\<close> and
  \<^verbatim>\<open>base_width\<close> of \<^verbatim>\<open>BottleConv\<close>, called directly or by
  \<^verbatim>\<open>BottleneckBlock\<close>.
\<close>

fun float_operands :: "fragment_call \<Rightarrow> (int \<times> int) option" where
  "float_operands (Call_BottleConv inchannel outchannel expansion groups base_width stride) =
     Some (outchannel, base_width)"
| "float_operands (Call_BottleneckBlock inchannel outchannel groups base_width stride) =
     Some (outchannel, base_width)"
| "float_operands c = None"

section \<open>Facts about the float arithmetic\<close>

lemma round53_exact: "\<bar>n\<bar> < 2 ^ 53 \<Longrightarrow> round53 n = n"
proof -
  assume "\<bar>n\<bar> < 2 ^ 53"
  then have "bitlen \<bar>n\<bar> \<le> 53"
    by (simp add: bitlen_le_iff_power)
  then show ?thesis
    by (simp add: round53_def Let_def)
qed

lemma round53_dvd:
  assumes "2 ^ nat (bitlen \<bar>n\<bar> - 53) dvd n"
  shows "round53 n = n"
proof (cases "bitlen \<bar>n\<bar> - 53 \<le> 0")
  case True
  then show ?thesis by (simp add: round53_def Let_def)
next
  case False
  define e where "e = nat (bitlen \<bar>n\<bar> - 53)"
  from assms have d: "2 ^ e dvd \<bar>n\<bar>" by (simp add: e_def)
  then have r0: "\<bar>n\<bar> mod 2 ^ e = 0" by (simp add: mod_eq_0_iff_dvd)
  have hpos: "(0::int) < 2 ^ nat (bitlen \<bar>n\<bar> - 53 - 1)" by simp
  have "round53 n = sgn n * (\<bar>n\<bar> div 2 ^ e * 2 ^ e)"
    using False r0 hpos by (simp add: round53_def Let_def e_def)
  also have "\<bar>n\<bar> div 2 ^ e * 2 ^ e = \<bar>n\<bar>" using d by simp
  finally show ?thesis by (simp add: mult_sgn_abs)
qed

lemma round53_times_64:
  assumes "\<bar>n\<bar> < 2 ^ 53"
  shows "round53 (n * 64) = n * 64"
proof (rule round53_dvd)
  have "\<bar>n * 64\<bar> < 2 ^ 59" using assms by (simp add: abs_mult)
  then have "bitlen \<bar>n * 64\<bar> \<le> 59" by (simp add: bitlen_le_iff_power)
  then have "nat (bitlen \<bar>n * 64\<bar> - 53) \<le> 6" by simp
  then have "(2::int) ^ nat (bitlen \<bar>n * 64\<bar> - 53) dvd 2 ^ 6"
    by (rule le_imp_power_dvd)
  moreover have "(2::int) ^ 6 dvd n * 64" by simp
  ultimately show "2 ^ nat (bitlen \<bar>n * 64\<bar> - 53) dvd n * 64"
    by (rule dvd_trans)
qed

text \<open>Rounding never leaves the binade: below \<open>2 ^ k\<close> the result is at most \<open>2 ^ k\<close>.\<close>

lemma round53_bound:
  assumes "\<bar>n\<bar> < 2 ^ k" and "53 \<le> k"
  shows "\<bar>round53 n\<bar> \<le> 2 ^ k"
proof (cases "bitlen \<bar>n\<bar> - 53 \<le> 0")
  case True
  then have "round53 n = n"
    by (simp add: round53_def Let_def)
  with assms show ?thesis by simp
next
  case False
  define a where "a = \<bar>n\<bar>"
  define e where "e = nat (bitlen a - 53)"
  define q where "q = a div 2 ^ e"
  define r where "r = a mod 2 ^ e"
  define q' where
    "q' = (if 2 ^ nat (bitlen a - 53 - 1) < r \<or> (r = 2 ^ nat (bitlen a - 53 - 1) \<and> odd q)
           then q + 1 else q)"
  from False have bl: "53 < bitlen a" by (simp add: a_def)
  then have apos: "0 < a" using bitlen_eq_zero_iff [of a] bitlen_nonneg [of a]
    by (cases "a \<le> 0") auto
  have e_eq: "nat (bitlen a) = 53 + e" using bl by (simp add: e_def)
  have "a < 2 ^ nat (bitlen a)" using bitlen_bounds [OF apos] by simp
  then have alt: "a < 2 ^ 53 * 2 ^ e" by (simp add: e_eq power_add)
  have "q * 2 ^ e + r = a" unfolding q_def r_def by (rule div_mult_mod_eq)
  moreover have "0 \<le> r" unfolding r_def by simp
  ultimately have "q * 2 ^ e < 2 ^ 53 * 2 ^ e" using alt by linarith
  then have qlt: "q < 2 ^ 53" by (simp add: mult_less_cancel_right)
  have q0: "0 \<le> q" unfolding q_def using apos by (simp add: pos_imp_zdiv_nonneg_iff)
  have q'b: "0 \<le> q' \<and> q' \<le> 2 ^ 53" using qlt q0 by (auto simp: q'_def)
  have rn: "round53 n = sgn n * (q' * 2 ^ e)"
    using False by (simp add: round53_def Let_def a_def e_def q_def r_def q'_def)
  have "\<bar>round53 n\<bar> = \<bar>sgn n\<bar> * (q' * 2 ^ e)"
    using q'b by (simp add: rn abs_mult)
  also have "\<dots> \<le> q' * 2 ^ e" using q'b by (simp add: abs_sgn_eq)
  also have "\<dots> \<le> 2 ^ 53 * 2 ^ e" using q'b by (simp add: mult_right_mono)
  also have "\<dots> = 2 ^ nat (bitlen a)" by (simp add: e_eq power_add)
  also have "\<dots> \<le> 2 ^ k"
  proof -
    have "bitlen a \<le> int k" using assms(1) by (simp add: bitlen_le_iff_power a_def)
    then have "nat (bitlen a) \<le> k" by simp
    then show ?thesis by (simp add: power_increasing)
  qed
  finally show ?thesis .
qed

lemma float_of_int_exact: "\<bar>n\<bar> < 2 ^ 53 \<Longrightarrow> float_of_int n = Inr n"
proof -
  assume a: "\<bar>n\<bar> < 2 ^ 53"
  have "(2::int) ^ 53 < 2 ^ 1024" by (rule power_strict_increasing) simp_all
  with a have "\<bar>n\<bar> < 2 ^ 1024" by linarith
  with a show ?thesis
    by (simp add: float_of_int_def round53_exact Let_def del: power_strict_increasing_iff)
qed

lemma float_of_int_in_range:
  assumes "\<bar>n\<bar> < 2 ^ 512"
  shows "float_of_int n = Inr (round53 n)" and "\<bar>round53 n\<bar> \<le> 2 ^ 512"
proof -
  show b: "\<bar>round53 n\<bar> \<le> 2 ^ 512" using assms by (rule round53_bound) simp
  have "(2::int) ^ 512 < 2 ^ 1024" by (rule power_strict_increasing) simp_all
  with b have "\<not> 2 ^ 1024 \<le> \<bar>round53 n\<bar>" by linarith
  then show "float_of_int n = Inr (round53 n)"
    by (simp only: float_of_int_def Let_def if_False)
qed

text \<open>
  With the default \<^verbatim>\<open>groups = 1\<close> and \<^verbatim>\<open>base_width = 64\<close> the width is the
  \<^verbatim>\<open>outchannel\<close> passed, as long as it is a double.
\<close>

lemma bottle_width_default:
  assumes "\<bar>outchannel\<bar> < 2 ^ 53"
  shows "bottle_width outchannel 64 1 = Inr outchannel"
proof -
  have f64: "float_of_int 64 = Inr 64" by (rule float_of_int_exact) simp
  have fo: "float_of_int outchannel = Inr outchannel" using assms by (rule float_of_int_exact)
  have p: "round53 (outchannel * 64) = outchannel * 64" using assms by (rule round53_times_64)
  have "\<bar>outchannel * 64\<bar> < 2 ^ 59" using assms by (simp add: abs_mult)
  moreover have "(2::int) ^ 59 < 2 ^ 1030" by (rule power_strict_increasing) simp_all
  ultimately have small: "\<not> 2 ^ 1030 \<le> \<bar>outchannel * 64\<bar>" by linarith
  have tr: "sgn (outchannel * 64) * (\<bar>outchannel * 64\<bar> div 64) = outchannel"
    by (simp add: abs_mult sgn_mult mult_sgn_abs)
  show ?thesis
    unfolding bottle_width_def f64 fo
    by (simp only: sum.case p Let_def small if_False tr mult_1_right)
qed

lemma bottle_width_in_range:
  assumes "\<bar>outchannel\<bar> < 2 ^ 512" and "\<bar>base_width\<bar> < 2 ^ 512"
  shows "\<exists>w. bottle_width outchannel base_width groups = Inr w"
proof -
  define fo where "fo = round53 outchannel"
  define fb where "fb = round53 base_width"
  have o: "float_of_int outchannel = Inr fo" "\<bar>fo\<bar> \<le> 2 ^ 512"
    using float_of_int_in_range [OF assms(1)] by (simp_all only: fo_def)
  have b: "float_of_int base_width = Inr fb" "\<bar>fb\<bar> \<le> 2 ^ 512"
    using float_of_int_in_range [OF assms(2)] by (simp_all only: fb_def)
  have "\<bar>fo * fb\<bar> = \<bar>fo\<bar> * \<bar>fb\<bar>" by (rule abs_mult)
  also have "\<dots> \<le> 2 ^ 512 * 2 ^ 512"
    using o(2) b(2) by (intro mult_mono) simp_all
  also have "\<dots> = (2::int) ^ 1024" by (simp only: power_add [symmetric]) simp
  also have "\<dots> < 2 ^ 1025" by (rule power_strict_increasing) simp_all
  finally have "\<bar>round53 (fo * fb)\<bar> \<le> 2 ^ 1025" by (rule round53_bound) simp
  moreover have "(2::int) ^ 1025 < 2 ^ 1030" by (rule power_strict_increasing) simp_all
  ultimately have small: "\<not> 2 ^ 1030 \<le> \<bar>round53 (fo * fb)\<bar>" by linarith
  show ?thesis
    unfolding bottle_width_def o(1) b(1)
    by (simp only: sum.case Let_def small if_False) blast
qed

text \<open>Rounding is symmetric, and where it rounds it is quotient, remainder and half unit.\<close>

lemma abs_round53: "\<bar>round53 n\<bar> = round53 \<bar>n\<bar>"
proof (cases "bitlen \<bar>n\<bar> - 53 \<le> 0")
  case True
  then show ?thesis by (simp add: round53_def Let_def)
next
  case False
  then have "n \<noteq> 0" by auto
  define e where "e = nat (bitlen \<bar>n\<bar> - 53)"
  define q' where
    "q' = (if 2 ^ nat (bitlen \<bar>n\<bar> - 53 - 1) < \<bar>n\<bar> mod 2 ^ e
              \<or> (\<bar>n\<bar> mod 2 ^ e = 2 ^ nat (bitlen \<bar>n\<bar> - 53 - 1) \<and> odd (\<bar>n\<bar> div 2 ^ e))
           then \<bar>n\<bar> div 2 ^ e + 1 else \<bar>n\<bar> div 2 ^ e)"
  have q0: "0 \<le> q'" by (simp add: q'_def pos_imp_zdiv_nonneg_iff)
  have r1: "round53 n = sgn n * (q' * 2 ^ e)"
    using False by (simp add: round53_def Let_def e_def q'_def)
  have r2: "round53 \<bar>n\<bar> = sgn \<bar>n\<bar> * (q' * 2 ^ e)"
    using False by (simp add: round53_def Let_def e_def q'_def)
  show ?thesis using q0 \<open>n \<noteq> 0\<close> by (simp add: r1 r2 abs_mult)
qed

lemma round53_parts:
  assumes "0 \<le> a" and "bitlen a = 53 + int e" and "0 < e"
  shows "round53 a =
     (if 2 ^ (e - 1) < a mod 2 ^ e \<or> (a mod 2 ^ e = 2 ^ (e - 1) \<and> odd (a div 2 ^ e))
      then a div 2 ^ e + 1 else a div 2 ^ e) * 2 ^ e"
proof -
  have e1: "nat (bitlen a - 53) = e" using assms(2) by simp
  have e2: "nat (bitlen a - 53 - 1) = e - 1" using assms(2) by simp
  have ne: "\<not> bitlen a - 53 \<le> 0" using assms(2,3) by simp
  have apos: "0 < a" using assms bitlen_eq_zero_iff [of a] by (cases "a = 0") auto
  have "round53 a = sgn a * ((if 2 ^ (e - 1) < a mod 2 ^ e \<or> (a mod 2 ^ e = 2 ^ (e - 1) \<and> odd (a div 2 ^ e))
      then a div 2 ^ e + 1 else a div 2 ^ e) * 2 ^ e)"
    unfolding round53_def Let_def using assms(1) ne by (simp only: abs_of_nonneg e1 e2 if_False)
  then show ?thesis using apos by simp
qed

text \<open>
  The exact point where rounding reaches a power of two: half a unit below it (the largest
  double below has an odd mantissa, so the tie goes up).
\<close>

lemma round53_lower:
  assumes "2 ^ k \<le> a" and "53 \<le> k"
  shows "2 ^ k \<le> round53 a"
proof -
  have apos: "0 < a" using assms(1) by (smt (verit) zero_less_power)
  have "nat (int k + 1) - 1 = k" by simp
  then have bk: "int k + 1 \<le> bitlen a"
    using assms(1) by (simp only: bitlen_ge_iff_power) simp
  define e where "e = nat (bitlen a - 53)"
  have e0: "0 < e" and be: "bitlen a = 53 + int e" using bk assms(2) by (simp_all add: e_def)
  have ke: "k \<le> 52 + e" using bk be by simp
  define q where "q = a div 2 ^ e"
  define r where "r = a mod 2 ^ e"
  have lo: "2 ^ nat (bitlen a - 1) \<le> a" using bitlen_bounds [OF apos] by simp
  have "nat (bitlen a - 1) = 52 + e" using be by simp
  then have "(2::int) ^ 52 * 2 ^ e \<le> a" using lo by (simp add: power_add)
  then have "(2 ^ 52 * 2 ^ e) div 2 ^ e \<le> a div 2 ^ e" by (rule zdiv_mono1) simp
  then have q52: "2 ^ 52 \<le> q" by (simp add: q_def)
  have "round53 a = (if 2 ^ (e - 1) < r \<or> (r = 2 ^ (e - 1) \<and> odd q) then q + 1 else q) * 2 ^ e"
    unfolding q_def r_def using apos be e0 by (intro round53_parts) simp_all
  then have D: "q * 2 ^ e \<le> round53 a" by (simp add: mult_right_mono)
  have "(2::int) ^ k \<le> 2 ^ (52 + e)" using ke by (intro power_increasing) simp_all
  also have "\<dots> = 2 ^ 52 * 2 ^ e" by (rule power_add)
  also have "\<dots> \<le> q * 2 ^ e" using q52 by (intro mult_right_mono) simp_all
  also note D
  finally show ?thesis .
qed

lemma round53_ge_pow_iff_nonneg:
  assumes "54 \<le> k" and "0 \<le> a"
  shows "(2 ^ k \<le> round53 a) = (2 ^ k - 2 ^ (k - 54) \<le> a)"
proof -
  have hk: "(2::int) * 2 ^ (k - 1) = 2 ^ k"
    using power_Suc [of "2::int" "k - 1"] assms(1) by simp
  have hk1: "(2::int) ^ (k - 54) \<le> 2 ^ (k - 1)"
    by (intro power_increasing) simp_all
  have hpos: "(0::int) < 2 ^ (k - 54)" by simp
  consider "2 ^ k \<le> a" | "a < 2 ^ (k - 1)" | "2 ^ (k - 1) \<le> a" "a < 2 ^ k" by linarith
  then show ?thesis
  proof cases
    case 1
    then have "2 ^ k \<le> round53 a" using assms(1) by (intro round53_lower) simp_all
    moreover have "2 ^ k - 2 ^ (k - 54) \<le> a" using 1 hpos by linarith
    ultimately show ?thesis by simp
  next
    case 2
    then have "\<bar>a\<bar> < 2 ^ (k - 1)" using assms(2) by simp
    then have "\<bar>round53 a\<bar> \<le> 2 ^ (k - 1)" using assms(1) by (intro round53_bound) simp_all
    then have "round53 a < 2 ^ k" using hk hk1 hpos by linarith
    moreover have "\<not> 2 ^ k - 2 ^ (k - 54) \<le> a" using 2 hk hk1 hpos by linarith
    ultimately show ?thesis by simp
  next
    case 3
    define e where "e = k - 53"
    have e0: "0 < e" and ke: "k = 53 + e" and e54: "k - 54 = e - 1" using assms(1) by (simp_all add: e_def)
    have "bitlen a \<le> int k" using 3(2) by (simp add: bitlen_le_iff_power)
    moreover have "int k \<le> bitlen a" using 3(1) by (simp add: bitlen_ge_iff_power)
    ultimately have be: "bitlen a = 53 + int e" using ke by simp
    define E where "E = (2::int) ^ e"
    define H where "H = (2::int) ^ (e - 1)"
    define q where "q = a div E"
    define r where "r = a mod E"
    have EH: "E = 2 * H" using e0 by (simp add: E_def H_def power_eq_if)
    have Hpos: "0 < H" by (simp add: H_def)
    have kE: "(2::int) ^ k = 2 ^ 53 * E" by (simp add: ke power_add E_def)
    have aqr: "a = q * E + r" by (simp add: q_def r_def)
    have r0: "0 \<le> r" and rE: "r < E" by (simp_all add: r_def E_def)
    have "q * E < 2 ^ 53 * E" using 3(2) kE aqr r0 by linarith
    then have qlt: "q < 2 ^ 53" using EH Hpos by (simp add: mult_less_cancel_right)
    have rd: "round53 a = (if H < r \<or> (r = H \<and> odd q) then q + 1 else q) * E"
      unfolding q_def r_def E_def H_def using assms(2) be e0 by (rule round53_parts)
    show ?thesis
    proof (cases "q = 2 ^ 53 - 1")
      case True
      then have oq: "odd q" by simp
      have lhs: "(2 ^ k \<le> round53 a) = (H \<le> r)"
      proof (cases "H \<le> r")
        case True
        then have yr: "H < r \<or> (r = H \<and> odd q)" using oq by auto
        have "round53 a = (q + 1) * E" unfolding rd by (simp only: yr if_True)
        then show ?thesis using True \<open>q = 2 ^ 53 - 1\<close> kE by simp
      next
        case False
        then have nr: "\<not> (H < r \<or> (r = H \<and> odd q))" by auto
        have "round53 a = q * E" unfolding rd by (simp only: nr if_False)
        then have "round53 a < 2 ^ k" using \<open>q * E < 2 ^ 53 * E\<close> kE by simp
        then show ?thesis using False by simp
      qed
      have "a = (2 ^ 53 - 1) * E + r" using aqr True by simp
      then have rhs: "(2 ^ k - 2 ^ (k - 54) \<le> a) = (H \<le> r)"
        unfolding kE e54 H_def [symmetric] using EH by (simp add: algebra_simps)
      show ?thesis by (simp only: lhs rhs)
    next
      case False
      then have q2: "q + 1 \<le> 2 ^ 53 - 1" using qlt by linarith
      then have "(q + 1) * E \<le> (2 ^ 53 - 1) * E" using Hpos EH by (intro mult_right_mono) simp_all
      then have up: "(q + 1) * E < 2 ^ 53 * E" using EH Hpos by (simp add: algebra_simps)
      have "round53 a \<le> (q + 1) * E" using EH Hpos by (simp add: rd mult_right_mono)
      then have l: "\<not> 2 ^ k \<le> round53 a" using up kE by linarith
      have "a < (q + 1) * E" using aqr rE by (simp add: algebra_simps)
      then have "a < (2 ^ 53 - 1) * E" using \<open>(q + 1) * E \<le> (2 ^ 53 - 1) * E\<close> by linarith
      then have "\<not> 2 ^ k - 2 ^ (k - 54) \<le> a"
        unfolding kE e54 H_def [symmetric] using EH Hpos by (simp add: algebra_simps)
      with l show ?thesis by simp
    qed
  qed
qed

lemma round53_ge_pow_iff:
  assumes "54 \<le> k"
  shows "(2 ^ k \<le> \<bar>round53 n\<bar>) = (2 ^ k - 2 ^ (k - 54) \<le> \<bar>n\<bar>)"
  unfolding abs_round53 using assms by (rule round53_ge_pow_iff_nonneg) simp

lemma float_of_int_cases:
  "float_of_int n =
     (if 2 ^ 1024 - 2 ^ 970 \<le> \<bar>n\<bar> then Inl OverflowError else Inr (round53 n))"
proof -
  have "(2 ^ 1024 \<le> \<bar>round53 n\<bar>) = (2 ^ 1024 - 2 ^ (1024 - 54) \<le> \<bar>n\<bar>)"
    by (rule round53_ge_pow_iff) simp
  moreover have "(1024::nat) - 54 = 970" by simp
  ultimately have key: "(2 ^ 1024 \<le> \<bar>round53 n\<bar>) = (2 ^ 1024 - 2 ^ 970 \<le> \<bar>n\<bar>)"
    by (simp only:)
  show ?thesis by (simp only: float_of_int_def Let_def key)
qed

lemma bottle_width_error_iff:
  "(bottle_width outchannel base_width groups = Inl OverflowError) =
   (2 ^ 1024 - 2 ^ 970 \<le> \<bar>base_width\<bar> \<or> 2 ^ 1024 - 2 ^ 970 \<le> \<bar>outchannel\<bar>
    \<or> 2 ^ 1030 - 2 ^ 976 \<le> \<bar>round53 outchannel * round53 base_width\<bar>)"
proof -
  have "(2 ^ 1030 \<le> \<bar>round53 (round53 outchannel * round53 base_width)\<bar>)
      = (2 ^ 1030 - 2 ^ (1030 - 54) \<le> \<bar>round53 outchannel * round53 base_width\<bar>)"
    by (rule round53_ge_pow_iff) simp
  moreover have "(1030::nat) - 54 = 976" by simp
  ultimately have p: "(2 ^ 1030 \<le> \<bar>round53 (round53 outchannel * round53 base_width)\<bar>)
      = (2 ^ 1030 - 2 ^ 976 \<le> \<bar>round53 outchannel * round53 base_width\<bar>)"
    by (simp only:)
  show ?thesis
  proof (cases "2 ^ 1024 - 2 ^ 970 \<le> \<bar>base_width\<bar>")
    case True
    then show ?thesis
      by (simp only: bottle_width_def float_of_int_cases if_True sum.case simp_thms)
  next
    case nb: False
    show ?thesis
    proof (cases "2 ^ 1024 - 2 ^ 970 \<le> \<bar>outchannel\<bar>")
      case True
      then show ?thesis using nb
        by (simp only: bottle_width_def float_of_int_cases if_True if_False sum.case simp_thms)
    next
      case no: False
      show ?thesis
      proof (cases "2 ^ 1030 - 2 ^ 976 \<le> \<bar>round53 outchannel * round53 base_width\<bar>")
        case True
        then show ?thesis using nb no
          by (simp only: bottle_width_def float_of_int_cases if_True if_False sum.case
              Let_def p simp_thms)
      next
        case False
        then show ?thesis using nb no
          by (simp only: bottle_width_def float_of_int_cases if_False sum.case
              Let_def p simp_thms sum.distinct)
      qed
    qed
  qed
qed

section \<open>Facts about the constructors\<close>

lemma BottleConv_in_range:
  assumes "\<bar>outchannel\<bar> < 2 ^ 512" and "\<bar>base_width\<bar> < 2 ^ 512"
  shows "\<exists>m. BottleConv inchannel outchannel expansion groups base_width stride = Inr m"
proof -
  from bottle_width_in_range [OF assms] obtain w
    where "bottle_width outchannel base_width groups = Inr w" by blast
  then show ?thesis by (simp add: BottleConv_def)
qed

lemma BottleneckBlock_in_range:
  assumes "\<bar>outchannel\<bar> < 2 ^ 512" and "\<bar>base_width\<bar> < 2 ^ 512"
  shows "\<exists>m. BottleneckBlock inchannel outchannel groups base_width stride = Inr m"
proof -
  from BottleConv_in_range [OF assms] obtain m
    where "BottleConv inchannel outchannel BottleneckBlock_expansion groups base_width stride
             = Inr m"
    by blast
  then show ?thesis by (simp add: BottleneckBlock_def Let_def)
qed

text \<open>An exception of \<^verbatim>\<open>BottleConv\<close> is one of its width expression.\<close>

lemma BottleConv_error_iff:
  "(BottleConv inchannel outchannel expansion groups base_width stride = Inl err) =
   (bottle_width outchannel base_width groups = Inl err)"
  by (simp add: BottleConv_def split: sum.splits)

lemma ShortCut_channels:
  "out_channels inchannel (ShortCut inchannel outchannel expansion stride)
     = outchannel * expansion"
  by (simp add: ShortCut_def)

text \<open>
  The channels of the two branches of a \<^verbatim>\<open>BottleneckBlock\<close>: four times the width on
  the \<^verbatim>\<open>BottleConv\<close> side, four times \<^verbatim>\<open>outchannel\<close> on the \<^verbatim>\<open>ShortCut\<close> side.
\<close>

lemma BottleneckBlock_branches:
  assumes "bottle_width outchannel base_width groups = Inr w"
  shows "map_sum id (branch_channels inchannel)
           (BottleneckBlock inchannel outchannel groups base_width stride)
         = Inr (Some (w * 4, outchannel * 4))"
  using assms ShortCut_channels [of inchannel outchannel 4 stride]
  by (simp add: BottleneckBlock_def BottleConv_def BottleneckBlock_expansion_def Let_def
      branch_channels_def block_branches_def)

lemma BottleneckBlock_default_branches:
  assumes "\<bar>outchannel\<bar> < 2 ^ 53"
  shows "map_sum id (branch_channels inchannel) (BottleneckBlock inchannel outchannel 1 64 stride)
         = Inr (Some (outchannel * 4, outchannel * 4))"
  using bottle_width_default [OF assms] by (rule BottleneckBlock_branches)

lemma ShortCut_bn: "bn_consistent (ShortCut inchannel outchannel expansion stride)"
  by (simp add: ShortCut_def)

lemma BottleConv_bn:
  "BottleConv inchannel outchannel expansion groups base_width stride = Inr m
   \<Longrightarrow> bn_consistent m"
  by (auto simp: BottleConv_def split: sum.splits)

lemma BottleneckBlock_bn:
  "BottleneckBlock inchannel outchannel groups base_width stride = Inr m \<Longrightarrow> bn_consistent m"
  by (auto simp: BottleneckBlock_def Let_def ShortCut_bn split: sum.splits dest: BottleConv_bn)

lemma BottleneckBlock_error_iff:
  "(BottleneckBlock inchannel outchannel groups base_width stride = Inl err) =
   (bottle_width outchannel base_width groups = Inl err)"
  by (simp add: BottleneckBlock_def BottleConv_def Let_def split: sum.splits)

lemma map_sum_Built_error: "(map_sum id Built x = Inl err) = (x = Inl err)"
  by (cases x) simp_all

lemma py_error_only: "(err :: py_error) = OverflowError"
  by (cases err) simp

lemma returns_if_no_error: "(\<And>err. x \<noteq> Inl err) \<Longrightarrow> \<exists>v. x = Inr v"
  by (cases x) auto

section \<open>The claims\<close>

text \<open>
  C1. Importing the blocks module registers each of the nine block classes under
  \<^verbatim>\<open>ClassType.SEARCH_SPACE\<close>: whatever the factory held before, each of the nine
  names then resolves to its class.
\<close>

theorem import_blocks_registers_all:
  "get_cls (import_blocks reg) SEARCH_SPACE ''ShortCut'' = Some ShortCut_class
   \<and> get_cls (import_blocks reg) SEARCH_SPACE ''BottleConv'' = Some BottleConv_class
   \<and> get_cls (import_blocks reg) SEARCH_SPACE ''BasicConv'' = Some BasicConv_class
   \<and> get_cls (import_blocks reg) SEARCH_SPACE ''SmallInputInitialBlock''
       = Some SmallInputInitialBlock_class
   \<and> get_cls (import_blocks reg) SEARCH_SPACE ''InitialBlock'' = Some InitialBlock_class
   \<and> get_cls (import_blocks reg) SEARCH_SPACE ''BasicBlock'' = Some BasicBlock_class
   \<and> get_cls (import_blocks reg) SEARCH_SPACE ''BottleneckBlock'' = Some BottleneckBlock_class
   \<and> get_cls (import_blocks reg) SEARCH_SPACE ''PruneBasicBlock'' = Some PruneBasicBlock_class
   \<and> get_cls (import_blocks reg) SEARCH_SPACE ''PruneBasicConv'' = Some PruneBasicConv_class"
  by (simp add: get_cls_def import_blocks_def register_def)

text \<open>
  C2. The quantization package imports the TensorFlow operators exactly when
  \<^verbatim>\<open>is_tf_backend()\<close> is true, the PyTorch operators exactly when it is not, and one
  module in all.
\<close>

theorem quant_init_selects_backend:
  "(tensorflow_quant \<in> set (quant_init is_tf)) = is_tf
   \<and> (pytroch_quant \<in> set (quant_init is_tf)) = (\<not> is_tf)
   \<and> length (quant_init is_tf) = 1"
  by (simp add: quant_init_def)

text \<open>
  C3. The claim is that the two branches of a \<^verbatim>\<open>BottleneckBlock\<close> have the same
  number of output channels for all \<^verbatim>\<open>groups\<close> and \<^verbatim>\<open>base_width\<close>. In
  \<^verbatim>\<open>BottleneckBlock(inchannel=64, outchannel=64, groups=2, base_width=64, stride=1)\<close>
  the \<^verbatim>\<open>BottleConv\<close> branch ends with 512 channels and the \<^verbatim>\<open>ShortCut\<close> branch with
  256: \<^verbatim>\<open>BottleConv\<close> overwrites \<^verbatim>\<open>outchannel\<close> with the width and multiplies the
  width, not the \<^verbatim>\<open>outchannel\<close> passed, by the expansion.
\<close>

theorem BottleneckBlock_branches_differ:
  "map_sum id (branch_channels 64) (BottleneckBlock 64 64 2 64 1) = Inr (Some (512, 256))"
  by code_simp

text \<open>
  C4. \<^verbatim>\<open>BasicBlock\<close> holds an \<^verbatim>\<open>Add\<close> of a \<^verbatim>\<open>BasicConv\<close> and a \<^verbatim>\<open>ShortCut\<close> of
  expansion 1 as its \<^verbatim>\<open>block\<close>, then a \<^verbatim>\<open>Relu\<close>, and nothing else; from
  \<^verbatim>\<open>inchannel\<close> channels both branches yield \<^verbatim>\<open>outchannel\<close> channels.
\<close>

theorem BasicBlock_structure:
  "BasicBlock inchannel outchannel groups base_width stride =
     Module ''BasicBlock''
       [(''block'', Add (BasicConv inchannel outchannel groups base_width stride)
                        (ShortCut inchannel outchannel 1 stride)),
        (''relu'', Relu None)]
   \<and> branch_channels inchannel (BasicBlock inchannel outchannel groups base_width stride)
       = Some (outchannel, outchannel)"
  by (simp add: BasicBlock_def BasicBlock_expansion_def branch_channels_def block_branches_def
      BasicConv_def ShortCut_def)

theorem BasicBlock_structure_witness:
  "branch_channels 64 (BasicBlock 64 128 1 64 2) = Some (128, 128)
   \<and> branch_channels 64 (BasicBlock 64 64 1 64 1) = Some (64, 64)"
  using BasicBlock_structure [of 64 128 1 64 2] BasicBlock_structure [of 64 64 1 64 1]
  by blast

text \<open>
  C5. A \<^verbatim>\<open>ShortCut\<close> consists of the 1x1 convolution from \<^verbatim>\<open>inchannel\<close> to
  \<^verbatim>\<open>outchannel * expansion\<close> with the given stride and the batch normalisation of
  \<^verbatim>\<open>outchannel * expansion\<close> features exactly when \<^verbatim>\<open>stride != 1\<close> or
  \<^verbatim>\<open>inchannel != outchannel * expansion\<close>, and has no layer at all exactly when
  \<^verbatim>\<open>stride == 1\<close> and \<^verbatim>\<open>inchannel == outchannel * expansion\<close>.
\<close>

theorem ShortCut_projection_iff:
  "(attrs (ShortCut inchannel outchannel expansion stride) =
      [(''conv1'', Conv2d \<lparr>conv_in_channels = inchannel,
                           conv_out_channels = outchannel * expansion,
                           conv_kernel_size = 1, conv_stride = Some stride,
                           conv_padding = None, conv_groups = None,
                           conv_bias = Some False\<rparr>),
       (''batch'', BatchNorm2d (outchannel * expansion))])
     = (stride \<noteq> 1 \<or> inchannel \<noteq> outchannel * expansion)
   \<and> (attrs (ShortCut inchannel outchannel expansion stride) = [])
     = (stride = 1 \<and> inchannel = outchannel * expansion)"
  by (simp add: ShortCut_def)

theorem ShortCut_projection_iff_witness:
  "attrs (ShortCut 64 64 1 1) = []
   \<and> attrs (ShortCut 64 32 4 2) =
      [(''conv1'', Conv2d \<lparr>conv_in_channels = 64, conv_out_channels = 128,
                           conv_kernel_size = 1, conv_stride = Some 2,
                           conv_padding = None, conv_groups = None,
                           conv_bias = Some False\<rparr>),
       (''batch'', BatchNorm2d 128)]"
  using ShortCut_projection_iff [of 64 64 1 1] ShortCut_projection_iff [of 64 32 4 2]
  by simp

text \<open>
  C6. \<^verbatim>\<open>PruneBasicBlock\<close> holds an \<^verbatim>\<open>Add\<close> of a \<^verbatim>\<open>PruneBasicConv\<close> and a
  \<^verbatim>\<open>ShortCut\<close> of expansion 1. The convolutions of the \<^verbatim>\<open>PruneBasicConv\<close> go from
  \<^verbatim>\<open>inchannel\<close> to \<^verbatim>\<open>innerchannel\<close> with the given stride and from
  \<^verbatim>\<open>innerchannel\<close> to \<^verbatim>\<open>outchannel\<close> with stride 1, and both branches yield
  \<^verbatim>\<open>outchannel\<close> channels whatever \<^verbatim>\<open>innerchannel\<close> is.
\<close>

theorem PruneBasicBlock_structure:
  "PruneBasicBlock inchannel outchannel innerchannel stride =
     Module ''PruneBasicBlock''
       [(''block'', Add (PruneBasicConv inchannel outchannel innerchannel stride)
                        (ShortCut inchannel outchannel 1 stride)),
        (''relu3'', Relu None)]
   \<and> map (\<lambda>a. (conv_in_channels a, conv_out_channels a, conv_stride a))
        (convs (PruneBasicConv inchannel outchannel innerchannel stride))
       = [(inchannel, innerchannel, Some stride), (innerchannel, outchannel, Some 1)]
   \<and> branch_channels inchannel (PruneBasicBlock inchannel outchannel innerchannel stride)
       = Some (outchannel, outchannel)"
  by (simp add: PruneBasicBlock_def PruneBasicBlock_expansion_def branch_channels_def
      block_branches_def PruneBasicConv_def ShortCut_def convs_def List.map_filter_simps)

theorem PruneBasicBlock_structure_witness:
  "branch_channels 64 (PruneBasicBlock 64 128 37 2) = Some (128, 128)
   \<and> branch_channels 64 (PruneBasicBlock 64 64 5 1) = Some (64, 64)"
  using PruneBasicBlock_structure [of 64 128 37 2] PruneBasicBlock_structure [of 64 64 5 1]
  by blast

text \<open>
  C7. In every block every \<^verbatim>\<open>BatchNorm2d\<close> has the \<^verbatim>\<open>out_channels\<close> of the
  convolution before it as its \<^verbatim>\<open>num_features\<close>, for all arguments of the
  constructor (for \<^verbatim>\<open>BottleConv\<close> and \<^verbatim>\<open>BottleneckBlock\<close>: whenever they return a
  block).
\<close>

theorem batchnorm_matches_conv:
  "bn_consistent (ShortCut inchannel outchannel expansion stride)
   \<and> (\<forall>m. BottleConv inchannel outchannel expansion groups base_width stride = Inr m
          \<longrightarrow> bn_consistent m)
   \<and> bn_consistent (BasicConv inchannel outchannel groups base_width stride)
   \<and> bn_consistent (SmallInputInitialBlock init_plane)
   \<and> bn_consistent (InitialBlock init_plane)
   \<and> bn_consistent (BasicBlock inchannel outchannel groups base_width stride)
   \<and> (\<forall>m. BottleneckBlock inchannel outchannel groups base_width stride = Inr m
          \<longrightarrow> bn_consistent m)
   \<and> bn_consistent (PruneBasicBlock inchannel outchannel innerchannel stride)
   \<and> bn_consistent (PruneBasicConv inchannel outchannel innerchannel stride)"
proof -
  have "bn_consistent (BasicConv inchannel outchannel groups base_width stride)"
    by (simp add: BasicConv_def)
  moreover have "bn_consistent (SmallInputInitialBlock init_plane)"
    by (simp add: SmallInputInitialBlock_def)
  moreover have "bn_consistent (InitialBlock init_plane)"
    by (simp add: InitialBlock_def)
  moreover have "bn_consistent (BasicBlock inchannel outchannel groups base_width stride)"
    by (simp add: BasicBlock_def Let_def BasicConv_def ShortCut_bn)
  moreover have "bn_consistent (PruneBasicConv inchannel outchannel innerchannel stride)"
    by (simp add: PruneBasicConv_def)
  moreover have "bn_consistent (PruneBasicBlock inchannel outchannel innerchannel stride)"
    by (simp add: PruneBasicBlock_def Let_def PruneBasicConv_def ShortCut_bn)
  ultimately show ?thesis
    using ShortCut_bn BottleConv_bn BottleneckBlock_bn by blast
qed

theorem batchnorm_matches_conv_witness:
  "(\<exists>m. BottleConv 64 64 4 32 4 1 = Inr m \<and> bn_consistent m)
   \<and> (\<exists>m. BottleneckBlock 64 64 32 4 1 = Inr m \<and> bn_consistent m)
   \<and> bn_consistent (ShortCut 64 64 4 1)"
proof -
  have a: "\<bar>64::int\<bar> < 2 ^ 512" by simp
  have b: "\<bar>4::int\<bar> < 2 ^ 512" by simp
  from BottleConv_in_range [OF a b] obtain m1
    where m1: "BottleConv 64 64 4 32 4 1 = Inr m1" by blast
  from BottleneckBlock_in_range [OF a b] obtain m2
    where m2: "BottleneckBlock 64 64 32 4 1 = Inr m2" by blast
  show ?thesis
    using batchnorm_matches_conv [of 64 64 4 1 32 4] m1 m2 by blast
qed

text \<open>
  C8. The claim is that no constructor raises an exception of its own for any argument
  values. \<^verbatim>\<open>BottleConv(1, 1, 4, 1, 2 ** 1024)\<close> raises \<^verbatim>\<open>OverflowError\<close> in its
  own first statement, \<^verbatim>\<open>base_width / 64.\<close>, before any primitive is called.
\<close>

theorem BottleConv_overflow_counterexample:
  "BottleConv 1 1 4 1 (2 ^ 1024) 1 = Inl OverflowError"
  by code_simp

text \<open>
  C8, amended. No constructor call of \<^verbatim>\<open>blocks.py\<close> and no import of the
  quantization package raises an exception of its own for any integer arguments, with one
  exception: \<^verbatim>\<open>BottleConv\<close>, called directly or by \<^verbatim>\<open>BottleneckBlock\<close>, raises
  \<^verbatim>\<open>OverflowError\<close> in its width expression, before any primitive is called,
  exactly when \<^verbatim>\<open>base_width\<close> or \<^verbatim>\<open>outchannel\<close> is \<open>2 ^ 1024 - 2 ^ 970\<close> or
  more in magnitude (it has no double), or the product of the doubles nearest to the two
  is \<open>2 ^ 1030 - 2 ^ 976\<close> or more in magnitude (divided by 64 it rounds to infinity).
\<close>

theorem own_error_iff:
  "(run_call c = Inl err) =
     (case float_operands c of
        None \<Rightarrow> False
      | Some (outchannel, base_width) \<Rightarrow>
          2 ^ 1024 - 2 ^ 970 \<le> \<bar>base_width\<bar> \<or> 2 ^ 1024 - 2 ^ 970 \<le> \<bar>outchannel\<bar>
          \<or> 2 ^ 1030 - 2 ^ 976 \<le> \<bar>round53 outchannel * round53 base_width\<bar>)"
proof (cases c)
  case (Call_BottleConv inchannel outchannel expansion groups base_width stride)
  then show ?thesis
    by (simp only: py_error_only [of err] run_call.simps float_operands.simps
        map_sum_Built_error BottleConv_error_iff bottle_width_error_iff option.case prod.case)
next
  case (Call_BottleneckBlock inchannel outchannel groups base_width stride)
  then show ?thesis
    by (simp only: py_error_only [of err] run_call.simps float_operands.simps
        map_sum_Built_error BottleneckBlock_error_iff bottle_width_error_iff option.case
        prod.case)
qed (simp_all only: run_call.simps float_operands.simps option.case sum.distinct)

theorem own_error_iff_witness:
  "run_call (Call_BottleConv 1 (2 ^ 512) 4 1 (2 ^ 518) 1) = Inl OverflowError
   \<and> (\<exists>v. run_call (Call_BottleConv 1 (2 ^ 512) 4 1 (2 ^ 517) 1) = Inr v)
   \<and> (\<exists>v. run_call (Call_BottleneckBlock 1 1 1 (2 ^ 1023) 1) = Inr v)
   \<and> (\<exists>v. run_call (Call_ShortCut 64 64 1 1) = Inr v)
   \<and> (\<exists>v. run_call (Import_quant True) = Inr v)"
proof -
  have c1: "2 ^ 1030 - 2 ^ 976 \<le> \<bar>round53 (2 ^ 512) * round53 (2 ^ 518)\<bar>"
    by code_simp
  have c2: "\<not> (2 ^ 1024 - 2 ^ 970 \<le> \<bar>2 ^ 517 :: int\<bar> \<or> 2 ^ 1024 - 2 ^ 970 \<le> \<bar>2 ^ 512 :: int\<bar>
          \<or> 2 ^ 1030 - 2 ^ 976 \<le> \<bar>round53 (2 ^ 512) * round53 (2 ^ 517)\<bar>)"
    by code_simp
  have c3: "\<not> (2 ^ 1024 - 2 ^ 970 \<le> \<bar>2 ^ 1023 :: int\<bar> \<or> 2 ^ 1024 - 2 ^ 970 \<le> \<bar>1 :: int\<bar>
          \<or> 2 ^ 1030 - 2 ^ 976 \<le> \<bar>round53 1 * round53 (2 ^ 1023)\<bar>)"
    by code_simp
  have "run_call (Call_BottleConv 1 (2 ^ 512) 4 1 (2 ^ 518) 1) = Inl OverflowError"
    using c1
    by (simp only: own_error_iff [of "Call_BottleConv 1 (2 ^ 512) 4 1 (2 ^ 518) 1" OverflowError]
        float_operands.simps option.case prod.case simp_thms)
  moreover have "\<exists>v. run_call (Call_BottleConv 1 (2 ^ 512) 4 1 (2 ^ 517) 1) = Inr v"
  proof (rule returns_if_no_error)
    fix err
    show "run_call (Call_BottleConv 1 (2 ^ 512) 4 1 (2 ^ 517) 1) \<noteq> Inl err"
      using c2
      by (simp only: own_error_iff [of "Call_BottleConv 1 (2 ^ 512) 4 1 (2 ^ 517) 1" err]
          float_operands.simps option.case prod.case simp_thms)
  qed
  moreover have "\<exists>v. run_call (Call_BottleneckBlock 1 1 1 (2 ^ 1023) 1) = Inr v"
  proof (rule returns_if_no_error)
    fix err
    show "run_call (Call_BottleneckBlock 1 1 1 (2 ^ 1023) 1) \<noteq> Inl err"
      using c3
      by (simp only: own_error_iff [of "Call_BottleneckBlock 1 1 1 (2 ^ 1023) 1" err]
          float_operands.simps option.case prod.case simp_thms)
  qed
  moreover have "\<exists>v. run_call (Call_ShortCut 64 64 1 1) = Inr v"
  proof (rule returns_if_no_error)
    fix err
    show "run_call (Call_ShortCut 64 64 1 1) \<noteq> Inl err"
      by (simp only: own_error_iff [of "Call_ShortCut 64 64 1 1" err]
          float_operands.simps option.case simp_thms)
  qed
  moreover have "\<exists>v. run_call (Import_quant True) = Inr v"
  proof (rule returns_if_no_error)
    fix err
    show "run_call (Import_quant True) \<noteq> Inl err"
      by (simp only: own_error_iff [of "Import_quant True" err]
          float_operands.simps option.case simp_thms)
  qed
  ultimately show ?thesis by (intro conjI)
qed

text \<open>
  C9. Both initial blocks have one convolution, with 3 input channels and
  \<^verbatim>\<open>init_plane\<close> output channels. In \<^verbatim>\<open>InitialBlock\<close> it is 7x7 with stride 2 and
  padding 3, and a 3x3 max-pool with stride 2 follows; in \<^verbatim>\<open>SmallInputInitialBlock\<close>
  it is 3x3 with stride 1 and padding 1, and there is no pooling.
\<close>

theorem initial_blocks_structure:
  "convs (InitialBlock init_plane) =
      [\<lparr>conv_in_channels = 3, conv_out_channels = init_plane, conv_kernel_size = 7,
        conv_stride = Some 2, conv_padding = Some 3, conv_groups = None,
        conv_bias = Some False\<rparr>]
   \<and> pools (InitialBlock init_plane) =
      [\<lparr>pool_kernel_size = 3, pool_stride = 2, pool_padding = 1\<rparr>]
   \<and> convs (SmallInputInitialBlock init_plane) =
      [\<lparr>conv_in_channels = 3, conv_out_channels = init_plane, conv_kernel_size = 3,
        conv_stride = Some 1, conv_padding = Some 1, conv_groups = None,
        conv_bias = Some False\<rparr>]
   \<and> pools (SmallInputInitialBlock init_plane) = []"
  by (simp add: InitialBlock_def SmallInputInitialBlock_def convs_def pools_def
      List.map_filter_simps)

end
